theory Spec2Isabelle
  imports Main "HOL-Library.Word"
begin

unbundle bit_operations_syntax

section \<open>Data model of \<^verbatim>\<open>server.go\<close>\<close>

text \<open>
  Go strings and byte slices are sequences of bytes; both are modelled as
  \<^typ>\<open>string\<close> (a list of 8-bit characters), so that \<^verbatim>\<open>[]byte(s)\<close> and
  \<^verbatim>\<open>string(b)\<close> are the identity.
\<close>

type_synonym bytes = string

text \<open>\<^verbatim>\<open>type ApiKey struct { Email, DeviceName, Key string }\<close>\<close>

record ApiKey =
  Email :: string
  DeviceName :: string
  Key :: string

text \<open>
  \<^verbatim>\<open>type AuthAccount struct { Email string; ApiKeys []ApiKey }\<close>. The field
  \<^verbatim>\<open>Email\<close> of the account is named \<open>AccEmail\<close> here, since a record field name
  can be declared only once. A nil slice and an empty slice are both \<open>[]\<close>.
\<close>

record AuthAccount =
  AccEmail :: string
  ApiKeys :: "ApiKey list"

text \<open>The zero values \<^verbatim>\<open>ApiKey{}\<close> and \<^verbatim>\<open>AuthAccount{}\<close>.\<close>

definition ApiKey_zero :: ApiKey where
  "ApiKey_zero = \<lparr>Email = [], DeviceName = [], Key = []\<rparr>"

definition AuthAccount_zero :: AuthAccount where
  "AuthAccount_zero = \<lparr>AccEmail = [], ApiKeys = []\<rparr>"

subsection \<open>Methods of \<^verbatim>\<open>AuthAccount\<close>\<close>

text \<open>
  \<^verbatim>\<open>RemoveKeyForDevice\<close>: the loop runs over the slice from the front and, at the
  first key whose device name matches, cuts that one element out and returns. Keys
  after it are kept, also when their device name matches.
\<close>

fun remove_first_for_device :: "ApiKey list \<Rightarrow> string \<Rightarrow> ApiKey list" where
  "remove_first_for_device [] deviceName = []"
| "remove_first_for_device (apiKey # rest) deviceName =
     (if DeviceName apiKey = deviceName then rest
      else apiKey # remove_first_for_device rest deviceName)"

definition RemoveKeyForDevice :: "AuthAccount \<Rightarrow> string \<Rightarrow> AuthAccount" where
  "RemoveKeyForDevice a deviceName =
     a\<lparr>ApiKeys := remove_first_for_device (ApiKeys a) deviceName\<rparr>"

text \<open>\<^verbatim>\<open>SetKey\<close>: remove the key of the device, then append the new key.\<close>

definition SetKey :: "AuthAccount \<Rightarrow> ApiKey \<Rightarrow> AuthAccount" where
  "SetKey a apiKey =
     (let a1 = RemoveKeyForDevice a (DeviceName apiKey)
      in a1\<lparr>ApiKeys := ApiKeys a1 @ [apiKey]\<rparr>)"

text \<open>\<^verbatim>\<open>KeyForDevice\<close>: the first key with that device name, or nil.\<close>

fun key_for_device :: "ApiKey list \<Rightarrow> string \<Rightarrow> ApiKey option" where
  "key_for_device [] deviceName = None"
| "key_for_device (apiKey # rest) deviceName =
     (if DeviceName apiKey = deviceName then Some apiKey
      else key_for_device rest deviceName)"

definition KeyForDevice :: "AuthAccount \<Rightarrow> string \<Rightarrow> ApiKey option" where
  "KeyForDevice a deviceName = key_for_device (ApiKeys a) deviceName"

text \<open>\<^verbatim>\<open>Validate\<close>: a linear scan for a key whose secret is the given string.\<close>

fun validate_keys :: "ApiKey list \<Rightarrow> string \<Rightarrow> bool" where
  "validate_keys [] key = False"
| "validate_keys (apiKey # rest) key =
     (if Key apiKey = key then True else validate_keys rest key)"

definition Validate :: "AuthAccount \<Rightarrow> string \<Rightarrow> bool" where
  "Validate a key = validate_keys (ApiKeys a) key"

text \<open>The invariant of the specification: one key per device name.\<close>

definition one_key_per_device :: "AuthAccount \<Rightarrow> bool" where
  "one_key_per_device a = distinct (map DeviceName (ApiKeys a))"

section \<open>The pattern of the Authorization header\<close>

text \<open>
  \<^verbatim>\<open>regexp.MustCompile("ApiKey (?P<email>.+):(?P<key>.+)")\<close>. Go's \<^verbatim>\<open>regexp\<close>
  searches the text for the pattern (no anchors are written, so a match may begin
  anywhere), returns the leftmost match, and among the matches that begin there the
  one a backtracking search finds first: \<^verbatim>\<open>.+\<close> is greedy and tries its longest
  extent first. Without the flag \<^verbatim>\<open>s\<close>, \<^verbatim>\<open>.\<close> matches every character but the
  newline. The text is matched rune by rune; a byte that is no valid UTF-8 is a rune
  of width one, and the literals of this pattern are ASCII, so on bytes \<^verbatim>\<open>.+\<close> is a
  non-empty run of bytes other than the newline.
\<close>

definition NL :: char where
  "NL = CHR 0x0A"

text \<open>A literal of the pattern: the text must begin with it; the rest is returned.\<close>

fun literal :: "string \<Rightarrow> string \<Rightarrow> string option" where
  "literal [] s = Some s"
| "literal (p # ps) [] = None"
| "literal (p # ps) (c # cs) = (if p = c then literal ps cs else None)"

text \<open>
  \<^verbatim>\<open>.+\<close>: every way to match it at the start of the text, as pairs of the matched
  part and the rest, in the order the search tries them (longest first).
\<close>

fun dot_plus :: "string \<Rightarrow> (string \<times> string) list" where
  "dot_plus [] = []"
| "dot_plus (c # cs) =
     (if c = NL then []
      else map (\<lambda>(m, r). (c # m, r)) (dot_plus cs) @ [([c], cs)])"

text \<open>Backtracking: the first alternative after which the rest of the pattern matches.\<close>

fun first_match :: "('a \<Rightarrow> 'b option) \<Rightarrow> 'a list \<Rightarrow> 'b option" where
  "first_match f [] = None"
| "first_match f (x # xs) = (case f x of Some y \<Rightarrow> Some y | None \<Rightarrow> first_match f xs)"

text \<open>\<^verbatim>\<open>:(?P<key>.+)\<close> at the end of the pattern: the key is the first way to match.\<close>

definition colon_key :: "string \<Rightarrow> string option" where
  "colon_key s =
     (case literal '':'' s of
        None \<Rightarrow> None
      | Some r \<Rightarrow> (case dot_plus r of [] \<Rightarrow> None | (key, _) # _ \<Rightarrow> Some key))"

text \<open>
  \<^verbatim>\<open>(?P<email>.+):(?P<key>.+)\<close>: the extents of the email are tried in turn, and
  the first after which a colon and a key follow is taken.
\<close>

definition email_colon_key :: "string \<Rightarrow> (string \<times> string) option" where
  "email_colon_key s =
     first_match (\<lambda>(email, r1). map_option (Pair email) (colon_key r1)) (dot_plus s)"

text \<open>The whole pattern at the start of the text: the groups \<open>email\<close> and \<open>key\<close>.\<close>

definition match_here :: "string \<Rightarrow> (string \<times> string) option" where
  "match_here s =
     (case literal ''ApiKey '' s of
        None \<Rightarrow> None
      | Some r \<Rightarrow> email_colon_key r)"

text \<open>
  \<^verbatim>\<open>re.FindStringSubmatch\<close>: the groups of the leftmost match (\<^verbatim>\<open>matches[1]\<close> and
  \<^verbatim>\<open>matches[2]\<close>), or nil. \<^verbatim>\<open>re.MatchString\<close>: whether there is a match.
\<close>

fun FindStringSubmatch :: "string \<Rightarrow> (string \<times> string) option" where
  "FindStringSubmatch [] = match_here []"
| "FindStringSubmatch (c # cs) =
     (case match_here (c # cs) of
        Some m \<Rightarrow> Some m
      | None \<Rightarrow> FindStringSubmatch cs)"

definition MatchString :: "string \<Rightarrow> bool" where
  "MatchString s = (FindStringSubmatch s \<noteq> None)"

text \<open>
  The grammar in the words of the specification, for comparison: the header is
  exactly \<^verbatim>\<open>ApiKey \<close>, an email, a colon and a key, both non-empty. The splits of
  the credential at each of its colons are listed, so the predicate computes.
\<close>

definition colon_splits :: "string \<Rightarrow> (string \<times> string) list" where
  "colon_splits cred =
     map (\<lambda>i. (take i cred, drop (Suc i) cred))
       (filter (\<lambda>i. cred ! i = CHR '':'') [0 ..< length cred])"


definition exact_grammar :: "string \<Rightarrow> string \<Rightarrow> string \<Rightarrow> bool" where
  "exact_grammar header email key =
     (header = ''ApiKey '' @ email @ '':'' @ key \<and> email \<noteq> [] \<and> key \<noteq> [])"

definition matches_exact_grammar :: "string \<Rightarrow> bool" where
  "matches_exact_grammar header =
     (case literal ''ApiKey '' header of
        None \<Rightarrow> False
      | Some cred \<Rightarrow> list_ex (\<lambda>(email, key). email \<noteq> [] \<and> key \<noteq> []) (colon_splits cred))"


section \<open>The key-value stores\<close>

text \<open>
  Go errors. \<^verbatim>\<open>leveldb.ErrNotFound\<close> is the one error the handlers compare with;
  \<open>Err msg\<close> is any other error, with the text \<^verbatim>\<open>err.Error()\<close> gives.
\<close>

datatype error = ErrNotFound | Err string

fun error_text :: "error \<Rightarrow> string" where
  "error_text ErrNotFound = ''leveldb: not found''"
| "error_text (Err msg) = msg"

text \<open>\<^verbatim>\<open>fmt.Sprintf("%s", err)\<close>: the text of the error; a nil error prints as below.\<close>

fun Sprintf_s :: "error option \<Rightarrow> string" where
  "Sprintf_s None = ''%!s(<nil>)''"
| "Sprintf_s (Some e) = error_text e"

text \<open>
  A \<^verbatim>\<open>leveldb.DB\<close> handle as the handlers see it: the stored pairs, the operations
  that fail at present (an I/O error, a closed handle; \<open>Some msg\<close> is the error), and
  the operations performed so far. A failing operation leaves the pairs as they are.
\<close>

datatype db_op = OpGet | OpPut | OpDelete

record DB =
  store :: "bytes \<rightharpoonup> bytes"
  fault :: "db_op \<Rightarrow> string option"
  accesses :: "(db_op \<times> bytes) list"

definition db_Get :: "DB \<Rightarrow> bytes \<Rightarrow> (bytes \<times> error option) \<times> DB" where
  "db_Get db key =
     (let db' = db\<lparr>accesses := accesses db @ [(OpGet, key)]\<rparr>
      in case fault db OpGet of
           Some msg \<Rightarrow> (([], Some (Err msg)), db')
         | None \<Rightarrow>
             (case store db key of
                None \<Rightarrow> (([], Some ErrNotFound), db')
              | Some v \<Rightarrow> ((v, None), db')))"

definition db_Put :: "DB \<Rightarrow> bytes \<Rightarrow> bytes \<Rightarrow> error option \<times> DB" where
  "db_Put db key v =
     (let db' = db\<lparr>accesses := accesses db @ [(OpPut, key)]\<rparr>
      in case fault db OpPut of
           Some msg \<Rightarrow> (Some (Err msg), db')
         | None \<Rightarrow> (None, db'\<lparr>store := (store db)(key \<mapsto> v)\<rparr>))"

definition db_Delete :: "DB \<Rightarrow> bytes \<Rightarrow> error option \<times> DB" where
  "db_Delete db key =
     (let db' = db\<lparr>accesses := accesses db @ [(OpDelete, key)]\<rparr>
      in case fault db OpDelete of
           Some msg \<Rightarrow> (Some (Err msg), db')
         | None \<Rightarrow> (None, db'\<lparr>store := (store db)(key := None)\<rparr>))"

section \<open>Serialisation\<close>

text \<open>
  \<^verbatim>\<open>encoding/json\<close> is a library of Go, not code of this program: the handlers are
  given its four instances as a parameter. \<open>Marshal\<close> returns the bytes and the error;
  \<open>Unmarshal\<close> returns the struct as the call leaves it (it starts from the zero
  value at both call sites) and the error. An error of \<^verbatim>\<open>encoding/json\<close> is never
  \<^verbatim>\<open>leveldb.ErrNotFound\<close>, so it is given by its text.
\<close>

record json =
  Marshal_ApiKey :: "ApiKey \<Rightarrow> bytes \<times> string option"
  Unmarshal_ApiKey :: "bytes \<Rightarrow> ApiKey \<times> string option"
  Marshal_AuthAccount :: "AuthAccount \<Rightarrow> bytes \<times> string option"
  Unmarshal_AuthAccount :: "bytes \<Rightarrow> AuthAccount \<times> string option"

section \<open>Accounts in the store\<close>

text \<open>\<^verbatim>\<open>SaveAuthAccount\<close>: the account as JSON under its email.\<close>

definition SaveAuthAccount :: "json \<Rightarrow> AuthAccount \<Rightarrow> DB \<Rightarrow> error option \<times> DB" where
  "SaveAuthAccount J a db =
     (let key = AccEmail a;
          (data, err) = Marshal_AuthAccount J a
      in case err of
           Some msg \<Rightarrow> (Some (Err msg), db)
         | None \<Rightarrow> db_Put db key data)"

text \<open>\<^verbatim>\<open>FetchAuthAccount\<close>: the account and the error, as the Go function returns both.\<close>

definition FetchAuthAccount :: "json \<Rightarrow> string \<Rightarrow> DB \<Rightarrow> (AuthAccount \<times> error option) \<times> DB" where
  "FetchAuthAccount J email db =
     (let key = email;
          ((data, err), db') = db_Get db key;
          acc = AuthAccount_zero
      in case err of
           Some e \<Rightarrow> ((acc, Some e), db')
         | None \<Rightarrow>
             (case Unmarshal_AuthAccount J data of
                (acc', Some msg) \<Rightarrow> ((acc', Some (Err msg)), db')
              | (acc', None) \<Rightarrow> ((acc', None), db')))"

section \<open>Handlers\<close>

definition StatusOK :: nat where "StatusOK = 200"
definition StatusUnauthorized :: nat where "StatusUnauthorized = 401"
definition StatusNotFound :: nat where "StatusNotFound = 404"
definition StatusInternalServerError :: nat where "StatusInternalServerError = 500"

text \<open>
  What the middleware \<^verbatim>\<open>Auth\<close> does with the request: \<^verbatim>\<open>http.Error\<close> writes a
  status and the message followed by a newline, and the chain of handlers stops;
  \<^verbatim>\<open>c.Map(authAccount)\<close> hands the account to the next handler. Indexing
  \<^verbatim>\<open>matches\<close> when it is nil would panic.
\<close>

datatype auth_outcome = Rejected nat string | Mapped AuthAccount | Panic

definition http_Error :: "string \<Rightarrow> nat \<Rightarrow> auth_outcome" where
  "http_Error msg code = Rejected code (msg @ [NL])"

definition Auth :: "json \<Rightarrow> string \<Rightarrow> DB \<Rightarrow> auth_outcome \<times> DB" where
  "Auth J authHeader db =
     (if \<not> MatchString authHeader
      then (http_Error ''No valid authorization header provided'' StatusUnauthorized, db)
      else
        (case FindStringSubmatch authHeader of
           None \<Rightarrow> (Panic, db)
         | Some (email, key) \<Rightarrow>
             (let ((authAccount, err), db') = FetchAuthAccount J email db
              in case err of
                   Some e \<Rightarrow>
                     (if e = ErrNotFound
                      then (http_Error (''User '' @ email @ '' does not exists'')
                              StatusUnauthorized, db')
                      else (http_Error (''Database error: '' @ Sprintf_s (Some e))
                              StatusInternalServerError, db'))
                 | None \<Rightarrow>
                     (if \<not> Validate authAccount key
                      then (http_Error ''The provided key was not valid'' StatusUnauthorized, db')
                      else (Mapped authAccount, db')))))"

text \<open>
  \<^verbatim>\<open>uuid\<close>: sixteen bytes from the random source (the argument; the buffer starts
  as zeros), the version and variant bits set, printed as five groups of lower-case
  hexadecimal digits, two for each byte.
\<close>

definition hex_digit :: "8 word \<Rightarrow> char" where
  "hex_digit d = (''0123456789abcdef'') ! unat (d AND 0x0f)"

definition hex_bytes :: "8 word list \<Rightarrow> string" where
  "hex_bytes bs = concat (map (\<lambda>b. [hex_digit (drop_bit 4 b), hex_digit b]) bs)"

definition uuid :: "8 word list \<Rightarrow> string" where
  "uuid random =
     (let b = take 16 (random @ replicate 16 0);
          b = b[6 := (b ! 6 AND 0x0f) OR 0x40];
          b = b[8 := (b ! 8 AND 0x3f) OR 0x80]
      in hex_bytes (take 4 b) @ ''-'' @ hex_bytes (take 2 (drop 4 b)) @ ''-''
         @ hex_bytes (take 2 (drop 6 b)) @ ''-'' @ hex_bytes (take 2 (drop 8 b)) @ ''-''
         @ hex_bytes (drop 10 b))"

text \<open>
  \<^verbatim>\<open>RequestApiKey\<close>. Its inputs are the two form fields, \<^verbatim>\<open>req.Host\<close>, the random
  bytes of the two calls of \<^verbatim>\<open>uuid\<close>, the parsed e-mail template (a file that is
  read at start-up) and the mail transport behind \<^verbatim>\<open>sendMail\<close>. The errors of
  \<^verbatim>\<open>json.Marshal\<close> and of \<^verbatim>\<open>actDb.Put\<close> are dropped by the code; \<^verbatim>\<open>sendMail\<close> runs in
  a goroutine of its own and nobody reads what it returns.
\<close>

definition RequestApiKey ::
  "json \<Rightarrow> (string \<Rightarrow> string \<Rightarrow> string \<Rightarrow> string) \<Rightarrow> (string \<Rightarrow> string \<Rightarrow> string \<Rightarrow> error option)
     \<Rightarrow> string \<Rightarrow> string \<Rightarrow> string \<Rightarrow> 8 word list \<Rightarrow> 8 word list \<Rightarrow> DB
     \<Rightarrow> (nat \<times> string) \<times> DB" where
  "RequestApiKey J actEmailTemp sendMail email deviceName host random1 random2 actDb =
     (let key = uuid random1;
          token = uuid random2;
          apiKey = \<lparr>Email = email, DeviceName = deviceName, Key = key\<rparr>;
          (data, _) = Marshal_ApiKey J apiKey;
          (_, actDb') = db_Put actDb token data;
          body = actEmailTemp (Email apiKey) (DeviceName apiKey)
                   (''http://'' @ host @ ''/activate/'' @ token);
          _ = sendMail email ''Api key activation'' body
      in ((StatusOK, data), actDb'))"

text \<open>\<^verbatim>\<open>ActivateApiKey\<close>. The result is the response and the two stores after the call.\<close>

definition ActivateApiKey :: "json \<Rightarrow> string \<Rightarrow> DB \<Rightarrow> DB \<Rightarrow> (nat \<times> string) \<times> DB \<times> DB" where
  "ActivateApiKey J token actDB authDB =
     (let ((data, err), actDB1) = db_Get actDB token
      in if err \<noteq> None then ((StatusNotFound, ''Token not valid''), actDB1, authDB)
         else
           (let (apiKey, _) = Unmarshal_ApiKey J data;
                ((acc, err), authDB1) = FetchAuthAccount J (Email apiKey) authDB
            in if err \<noteq> None \<and> err \<noteq> Some ErrNotFound
               then ((StatusInternalServerError,
                      ''Database error: '' @ Sprintf_s err), actDB1, authDB1)
               else
                 (let acc = (if err = Some ErrNotFound
                             then AuthAccount_zero\<lparr>AccEmail := Email apiKey\<rparr>
                             else acc);
                      acc = SetKey acc apiKey;
                      (err, authDB2) = SaveAuthAccount J acc authDB1;
                      (err, actDB2) = db_Delete actDB1 token
                  in if err \<noteq> None
                     then ((StatusInternalServerError,
                            ''Database error: '' @ Sprintf_s err), actDB2, authDB2)
                     else ((StatusOK, ''The api key for the device '' @ DeviceName apiKey
                              @ '' has been activated!''), actDB2, authDB2))))"

text \<open>\<^verbatim>\<open>GetData\<close> and \<^verbatim>\<open>PutData\<close>, on the store of the blobs.\<close>

definition GetData :: "AuthAccount \<Rightarrow> DB \<Rightarrow> (nat \<times> string) \<times> DB" where
  "GetData acc db =
     (let ((data, err), db') = db_Get db (AccEmail acc)
      in if err = Some ErrNotFound
         then ((StatusNotFound, ''Could not find data for '' @ AccEmail acc), db')
         else if err \<noteq> None
         then ((StatusInternalServerError, ''Database error: '' @ Sprintf_s err), db')
         else ((StatusOK, data), db'))"

definition PutData :: "AuthAccount \<Rightarrow> bytes \<Rightarrow> DB \<Rightarrow> (nat \<times> string) \<times> DB" where
  "PutData acc data db =
     (let (err, db') = db_Put db (AccEmail acc) data
      in if err \<noteq> None
         then ((StatusInternalServerError, ''Database error: '' @ Sprintf_s err), db')
         else ((StatusOK, data), db'))"


section \<open>A fragment of \<^verbatim>\<open>encoding/json\<close> for concrete documents\<close>

text \<open>
  The theorems about the handlers hold for every instance of \<^typ>\<open>json\<close>. Where a
  handler is evaluated on a concrete store, the documents in it are read and written
  by \<open>json_plain\<close>: the layout \<^verbatim>\<open>json.Marshal\<close> produces for the two structs (members
  in the order of the fields, no white space, \<^verbatim>\<open>null\<close> for a slice without elements),
  with the escapes \<^verbatim>\<open>\"\<close> and \<^verbatim>\<open>\\\<close> only. A text outside this layout is reported
  as an error, and the struct keeps its zero value, as it does in Go on a text that
  is no JSON at all.
\<close>

definition dquote :: char where "dquote = CHR 0x22"
definition backslash :: char where "backslash = CHR 0x5C"

definition quote :: "string \<Rightarrow> string" where
  "quote s =
     dquote # concat (map (\<lambda>c. if c = dquote \<or> c = backslash then [backslash, c] else [c]) s)
       @ [dquote]"

text \<open>The characters of a string up to its closing quote, and the text after it.\<close>

fun string_body :: "string \<Rightarrow> (string \<times> string) option" where
  "string_body [] = None"
| "string_body [c] = (if c = dquote then Some ([], []) else None)"
| "string_body (c # d # ds) =
     (if c = dquote then Some ([], d # ds)
      else if c = backslash then
        (if d = dquote \<or> d = backslash
         then map_option (\<lambda>(s, r). (d # s, r)) (string_body ds) else None)
      else if (of_char c :: nat) < 0x20 then None
      else map_option (\<lambda>(s, r). (c # s, r)) (string_body (d # ds)))"

definition member_string :: "string \<Rightarrow> string \<Rightarrow> (string \<times> string) option" where
  "member_string name s =
     (case literal (quote name @ '':'' @ [dquote]) s of
        None \<Rightarrow> None
      | Some r \<Rightarrow> string_body r)"

definition encode_ApiKey :: "ApiKey \<Rightarrow> string" where
  "encode_ApiKey k =
     ''{'' @ quote ''email'' @ '':'' @ quote (Email k) @ '','' @
     quote ''device_name'' @ '':'' @ quote (DeviceName k) @ '','' @
     quote ''key'' @ '':'' @ quote (Key k) @ ''}''"

definition parse_ApiKey :: "string \<Rightarrow> (ApiKey \<times> string) option" where
  "parse_ApiKey s =
     Option.bind (literal ''{'' s) (\<lambda>r0.
     Option.bind (member_string ''email'' r0) (\<lambda>(e, r1).
     Option.bind (literal '','' r1) (\<lambda>r2.
     Option.bind (member_string ''device_name'' r2) (\<lambda>(d, r3).
     Option.bind (literal '','' r3) (\<lambda>r4.
     Option.bind (member_string ''key'' r4) (\<lambda>(k, r5).
     Option.bind (literal ''}'' r5) (\<lambda>r6.
       Some (\<lparr>Email = e, DeviceName = d, Key = k\<rparr>, r6))))))))"

text \<open>
  The elements of an array after its opening bracket. The first argument bounds the
  number of elements; the length of the text is always enough.
\<close>

fun parse_ApiKeys :: "nat \<Rightarrow> string \<Rightarrow> (ApiKey list \<times> string) option" where
  "parse_ApiKeys 0 s = None"
| "parse_ApiKeys (Suc n) s =
     (case parse_ApiKey s of
        None \<Rightarrow> None
      | Some (k, r) \<Rightarrow>
          (case literal '','' r of
             Some r' \<Rightarrow> map_option (\<lambda>(ks, r''). (k # ks, r'')) (parse_ApiKeys n r')
           | None \<Rightarrow> map_option (\<lambda>r'. ([k], r')) (literal '']'' r)))"

fun intercalate :: "string \<Rightarrow> string list \<Rightarrow> string" where
  "intercalate sep [] = []"
| "intercalate sep [x] = x"
| "intercalate sep (x # y # ys) = x @ sep @ intercalate sep (y # ys)"

definition encode_AuthAccount :: "AuthAccount \<Rightarrow> string" where
  "encode_AuthAccount a =
     ''{'' @ quote ''Email'' @ '':'' @ quote (AccEmail a) @ '','' @ quote ''ApiKeys'' @ '':'' @
     (if ApiKeys a = [] then ''null''
      else ''['' @ intercalate '','' (map encode_ApiKey (ApiKeys a)) @ '']'') @ ''}''"

definition parse_AuthAccount :: "string \<Rightarrow> (AuthAccount \<times> string) option" where
  "parse_AuthAccount s =
     Option.bind (literal ''{'' s) (\<lambda>r0.
     Option.bind (member_string ''Email'' r0) (\<lambda>(e, r1).
     Option.bind (literal ('','' @ quote ''ApiKeys'' @ '':'') r1) (\<lambda>r2.
     Option.bind
       (case literal ''null'' r2 of
          Some r \<Rightarrow> Some ([], r)
        | None \<Rightarrow>
            (case literal ''[]'' r2 of
               Some r \<Rightarrow> Some ([], r)
             | None \<Rightarrow> Option.bind (literal ''['' r2) (parse_ApiKeys (length r2))))
       (\<lambda>(ks, r3).
     Option.bind (literal ''}'' r3) (\<lambda>r4.
       Some (\<lparr>AccEmail = e, ApiKeys = ks\<rparr>, r4))))))"

definition json_plain :: json where
  "json_plain =
     \<lparr>Marshal_ApiKey = (\<lambda>k. (encode_ApiKey k, None)),
      Unmarshal_ApiKey = (\<lambda>data.
        case parse_ApiKey data of
          Some (k, []) \<Rightarrow> (k, None)
        | _ \<Rightarrow> (ApiKey_zero, Some ''json: invalid text'')),
      Marshal_AuthAccount = (\<lambda>a. (encode_AuthAccount a, None)),
      Unmarshal_AuthAccount = (\<lambda>data.
        case parse_AuthAccount data of
          Some (a, []) \<Rightarrow> (a, None)
        | _ \<Rightarrow> (AuthAccount_zero, Some ''json: invalid text''))\<rparr>"

text \<open>A store without faults and without history, holding the given pairs.\<close>

definition db_of :: "(bytes \<times> bytes) list \<Rightarrow> DB" where
  "db_of kvs = \<lparr>store = map_of kvs, fault = (\<lambda>_. None), accesses = []\<rparr>"


section \<open>Concrete documents and stores\<close>

text \<open>
  An account \<^verbatim>\<open>a\<close> with one key \<^verbatim>\<open>b\<close> for the device \<^verbatim>\<open>phone\<close>, the JSON text of
  the account, the JSON text of a requested key \<^verbatim>\<open>k2\<close> for the same device, and a
  text that is no JSON.
\<close>

definition account_a :: AuthAccount where
  "account_a = \<lparr>AccEmail = ''a'', ApiKeys = [\<lparr>Email = ''a'', DeviceName = ''phone'', Key = ''b''\<rparr>]\<rparr>"

definition account_a_json :: bytes where
  "account_a_json =
     ''{\"Email\":\"a\",\"ApiKeys\":[{\"email\":\"a\",\"device_name\":\"phone\",\"key\":\"b\"}]}''"

definition pending_key :: ApiKey where
  "pending_key = \<lparr>Email = ''a'', DeviceName = ''phone'', Key = ''k2''\<rparr>"

definition pending_key_json :: bytes where
  "pending_key_json = ''{\"email\":\"a\",\"device_name\":\"phone\",\"key\":\"k2\"}''"

definition not_json :: bytes where
  "not_json = ''not json''"

text \<open>Two outcomes of the random source.\<close>

definition random_a :: "8 word list" where
  "random_a = [0, 1, 2, 3, 4, 5, 6, 7, 8, 9, 10, 11, 12, 13, 14, 15]"

definition random_b :: "8 word list" where
  "random_b = [255, 254, 253, 252, 251, 250, 249, 248, 247, 246, 245, 244, 243, 242, 241, 240]"

text \<open>
  An account with two devices, its JSON text, and the text after the key of
  \<open>pending_key\<close> has been merged into it.
\<close>

definition account_two :: AuthAccount where
  "account_two = \<lparr>AccEmail = ''a'', ApiKeys =
     [\<lparr>Email = ''a'', DeviceName = ''phone'', Key = ''b''\<rparr>,
      \<lparr>Email = ''a'', DeviceName = ''laptop'', Key = ''c''\<rparr>]\<rparr>"

definition account_two_json :: bytes where
  "account_two_json =
     ''{\"Email\":\"a\",\"ApiKeys\":[{\"email\":\"a\",\"device_name\":\"phone\",\"key\":\"b\"},{\"email\":\"a\",\"device_name\":\"laptop\",\"key\":\"c\"}]}''"

definition account_two_merged_json :: bytes where
  "account_two_merged_json =
     ''{\"Email\":\"a\",\"ApiKeys\":[{\"email\":\"a\",\"device_name\":\"laptop\",\"key\":\"c\"},{\"email\":\"a\",\"device_name\":\"phone\",\"key\":\"k2\"}]}''"

text \<open>The account \<^verbatim>\<open>a\<close> with another key, and its JSON text.\<close>

definition account_other_json :: bytes where
  "account_other_json =
     ''{\"Email\":\"a\",\"ApiKeys\":[{\"email\":\"a\",\"device_name\":\"phone\",\"key\":\"other\"}]}''"

definition account_other :: AuthAccount where
  "account_other = \<lparr>AccEmail = ''a'', ApiKeys = [\<lparr>Email = ''a'', DeviceName = ''phone'', Key = ''other''\<rparr>]\<rparr>"

text \<open>A store whose writes fail.\<close>

definition put_fails :: "DB \<Rightarrow> DB" where
  "put_fails db = db\<lparr>fault := (\<lambda>op. if op = OpPut then Some ''disk full'' else None)\<rparr>"


section \<open>Properties of the pattern\<close>

lemma literal_Some_iff: "literal p s = Some r \<longleftrightarrow> s = p @ r"
  by (induction p s rule: literal.induct) auto

lemma literal_append [simp]: "literal p (p @ r) = Some r"
  by (simp add: literal_Some_iff)

lemma dot_plus_set:
  "(m, r) \<in> set (dot_plus s) \<longleftrightarrow> m \<noteq> [] \<and> s = m @ r \<and> NL \<notin> set m"
proof (induction s arbitrary: m r)
  case Nil
  then show ?case by simp
next
  case (Cons c cs)
  show ?case
  proof (cases "c = NL")
    case True
    then show ?thesis by (cases m) auto
  next
    case False
    show ?thesis
    proof (cases m)
      case Nil
      then show ?thesis using False by auto
    next
      case (Cons a m')
      then show ?thesis using False Cons.IH [of m' r] by (cases m') auto
    qed
  qed
qed

lemma dot_plus_Nil_iff: "dot_plus s = [] \<longleftrightarrow> s = [] \<or> hd s = NL"
  by (cases s) auto

lemma dot_plus_hd:
  "s \<noteq> [] \<Longrightarrow> NL \<notin> set s \<Longrightarrow> \<exists>rest. dot_plus s = (s, []) # rest"
proof (induction s)
  case Nil
  then show ?case by simp
next
  case (Cons c cs)
  show ?case
  proof (cases cs)
    case Nil
    with Cons.prems show ?thesis by simp
  next
    case (Cons d ds)
    with Cons.IH Cons.prems obtain rest where "dot_plus cs = (cs, []) # rest" by auto
    with Cons.prems show ?thesis by auto
  qed
qed

lemma first_match_Some:
  "first_match f xs = Some y \<Longrightarrow> \<exists>x \<in> set xs. f x = Some y"
  by (induction xs) (auto split: option.splits)

lemma first_match_None_iff:
  "first_match f xs = None \<longleftrightarrow> (\<forall>x \<in> set xs. f x = None)"
  by (induction xs) (auto split: option.splits)

lemma first_match_not_None:
  "x \<in> set xs \<Longrightarrow> f x \<noteq> None \<Longrightarrow> first_match f xs \<noteq> None"
  by (auto simp: first_match_None_iff)

lemma first_match_append:
  "first_match f (xs @ ys) = (case first_match f xs of Some y \<Rightarrow> Some y | None \<Rightarrow> first_match f ys)"
  by (induction xs) (auto split: option.splits)

lemma first_match_map: "first_match f (map g xs) = first_match (f \<circ> g) xs"
  by (induction xs) (auto split: option.splits)

lemma colon_key_Some:
  assumes "colon_key s = Some k"
  shows "\<exists>post. s = '':'' @ k @ post \<and> k \<noteq> [] \<and> NL \<notin> set k"
proof -
  from assms obtain r rest p where r: "literal '':'' s = Some r" and d: "dot_plus r = (k, p) # rest"
    by (auto simp: colon_key_def split: option.splits list.splits)
  from d have "(k, p) \<in> set (dot_plus r)" by simp
  then have "k \<noteq> [] \<and> r = k @ p \<and> NL \<notin> set k" by (simp add: dot_plus_set)
  with r show ?thesis by (auto simp: literal_Some_iff)
qed

lemma colon_key_None_iff:
  "colon_key s = None \<longleftrightarrow> \<not> (\<exists>x post. s = CHR '':'' # x # post \<and> x \<noteq> NL)"
proof (cases "literal '':'' s")
  case None
  then have "\<And>r. s \<noteq> '':'' @ r" using literal_Some_iff [of "'':''" s] by auto
  with None show ?thesis by (auto simp: colon_key_def)
next
  case (Some r)
  then have s: "s = CHR '':'' # r" by (simp add: literal_Some_iff)
  show ?thesis using Some s by (cases r) (auto simp: colon_key_def split: list.splits)
qed

lemma colon_key_whole:
  "k \<noteq> [] \<Longrightarrow> NL \<notin> set k \<Longrightarrow> colon_key (CHR '':'' # k) = Some k"
  using dot_plus_hd [of k] by (auto simp: colon_key_def)

text \<open>The greedy choice of the email, as a recursion on the text.\<close>

lemma email_colon_key_Nil [simp]: "email_colon_key [] = None"
  by (simp add: email_colon_key_def)

lemma email_colon_key_Cons:
  "email_colon_key (c # cs) =
     (if c = NL then None
      else case email_colon_key cs of
             Some (m, k) \<Rightarrow> Some (c # m, k)
           | None \<Rightarrow> map_option (Pair [c]) (colon_key cs))"
proof -
  have comp: "(\<lambda>(email, r1). map_option (Pair email) (colon_key r1)) \<circ> (\<lambda>(m, r). (c # m, r))
      = (\<lambda>(m, r). map_option (\<lambda>k. (c # m, k)) (colon_key r))"
    by (auto simp: fun_eq_iff)
  have "first_match (\<lambda>(m, r). map_option (\<lambda>k. (c # m, k)) (colon_key r)) xs
      = map_option (\<lambda>(m, k). (c # m, k)) (first_match (\<lambda>(m, r). map_option (Pair m) (colon_key r)) xs)" for xs
    by (induction xs) (auto split: option.splits)
  then show ?thesis
    by (auto simp: email_colon_key_def first_match_append first_match_map comp split: option.splits)
qed

lemma email_colon_key_no_inner_colon:
  "CHR '':'' \<notin> set (butlast k) \<Longrightarrow> email_colon_key k = None"
proof (induction k)
  case Nil
  then show ?case by simp
next
  case (Cons c cs)
  have ih: "email_colon_key cs = None" using Cons by (auto split: if_splits)
  have "colon_key cs = None"
  proof (cases cs)
    case Nil
    then show ?thesis by (simp add: colon_key_def)
  next
    case (Cons d ds)
    with Cons.prems show ?thesis by (auto simp: colon_key_None_iff split: if_splits)
  qed
  with ih show ?case by (simp add: email_colon_key_Cons)
qed

lemma email_colon_key_last_colon:
  assumes "e \<noteq> []" "NL \<notin> set e" "k \<noteq> []" "NL \<notin> set k" "CHR '':'' \<notin> set (butlast k)"
  shows "email_colon_key (e @ CHR '':'' # k) = Some (e, k)"
  using assms(1,2)
proof (induction e)
  case Nil
  then show ?case by simp
next
  case (Cons c e')
  show ?case
  proof (cases "e' = []")
    case True
    have "email_colon_key (CHR '':'' # k) = None"
      using email_colon_key_no_inner_colon [OF assms(5)] assms(5)
      by (cases k) (auto simp: email_colon_key_Cons colon_key_None_iff NL_def split: if_splits)
    with True Cons.prems assms show ?thesis
      by (simp add: email_colon_key_Cons colon_key_whole)
  next
    case False
    with Cons have "email_colon_key (e' @ CHR '':'' # k) = Some (e', k)" by simp
    with Cons.prems show ?thesis by (auto simp: email_colon_key_Cons)
  qed
qed

lemma match_here_Some:
  assumes "match_here t = Some (e, k)"
  shows "\<exists>post. t = ''ApiKey '' @ e @ '':'' @ k @ post \<and> e \<noteq> [] \<and> k \<noteq> [] \<and> NL \<notin> set e \<and> NL \<notin> set k"
proof -
  from assms obtain r where r: "literal ''ApiKey '' t = Some r"
    and f: "first_match (\<lambda>(email, r1). map_option (Pair email) (colon_key r1)) (dot_plus r) = Some (e, k)"
    by (auto simp: match_here_def email_colon_key_def split: option.splits)
  from first_match_Some [OF f] obtain m r1 where m: "(m, r1) \<in> set (dot_plus r)"
    and c: "map_option (Pair m) (colon_key r1) = Some (e, k)" by auto
  from c have me: "m = e" and ck: "colon_key r1 = Some k" by auto
  from m me have e: "e \<noteq> [] \<and> r = e @ r1 \<and> NL \<notin> set e" by (simp add: dot_plus_set)
  from colon_key_Some [OF ck] obtain post where "r1 = '':'' @ k @ post \<and> k \<noteq> [] \<and> NL \<notin> set k" by blast
  with e r show ?thesis by (auto simp: literal_Some_iff)
qed

lemma match_here_complete:
  assumes "e \<noteq> []" "NL \<notin> set e" "x \<noteq> NL"
  shows "match_here (''ApiKey '' @ e @ CHR '':'' # x # post) \<noteq> None"
proof -
  have "(e, CHR '':'' # x # post) \<in> set (dot_plus (e @ CHR '':'' # x # post))"
    using assms by (simp add: dot_plus_set)
  moreover have "colon_key (CHR '':'' # x # post) \<noteq> None"
    using assms by (simp add: colon_key_None_iff)
  ultimately have "first_match (\<lambda>(email, r1). map_option (Pair email) (colon_key r1))
      (dot_plus (e @ CHR '':'' # x # post)) \<noteq> None"
    by (intro first_match_not_None [of "(e, CHR '':'' # x # post)"]) auto
  moreover have "literal ''ApiKey '' (''ApiKey '' @ e @ CHR '':'' # x # post) = Some (e @ CHR '':'' # x # post)"
    by (rule literal_append)
  ultimately show ?thesis unfolding match_here_def email_colon_key_def by simp
qed

lemma match_here_exact:
  assumes "e \<noteq> []" "NL \<notin> set e" "k \<noteq> []" "NL \<notin> set k" "CHR '':'' \<notin> set (butlast k)"
  shows "match_here (''ApiKey '' @ e @ '':'' @ k) = Some (e, k)"
proof -
  have "literal ''ApiKey '' (''ApiKey '' @ e @ '':'' @ k) = Some (e @ '':'' @ k)"
    by (rule literal_append)
  then show ?thesis
    unfolding match_here_def using email_colon_key_last_colon [OF assms]
    by simp
qed

lemma FindStringSubmatch_Some:
  "FindStringSubmatch s = Some m \<Longrightarrow> \<exists>pre t. s = pre @ t \<and> match_here t = Some m"
proof (induction s)
  case Nil
  then show ?case by simp
next
  case (Cons c cs)
  show ?case
  proof (cases "match_here (c # cs)")
    case None
    with Cons obtain pre t where "cs = pre @ t \<and> match_here t = Some m" by auto
    then have "c # cs = (c # pre) @ t \<and> match_here t = Some m" by simp
    then show ?thesis by blast
  next
    case (Some a)
    with Cons.prems have "c # cs = [] @ (c # cs) \<and> match_here (c # cs) = Some m" by simp
    then show ?thesis by blast
  qed
qed

lemma FindStringSubmatch_None:
  "FindStringSubmatch (pre @ t) = None \<Longrightarrow> match_here t = None"
proof (induction pre)
  case Nil
  then show ?case by (cases t) (auto split: option.splits)
next
  case (Cons c pre)
  then show ?case by (auto split: option.splits)
qed

lemma FindStringSubmatch_at_start:
  "match_here s = Some m \<Longrightarrow> FindStringSubmatch s = Some m"
  by (cases s) auto

lemma MatchString_iff:
  "MatchString h \<longleftrightarrow>
     (\<exists>pre e x post. h = pre @ ''ApiKey '' @ e @ '':'' @ x # post \<and> e \<noteq> [] \<and> NL \<notin> set e \<and> x \<noteq> NL)"
proof
  assume "MatchString h"
  then obtain e k where "FindStringSubmatch h = Some (e, k)"
    by (auto simp: MatchString_def)
  from FindStringSubmatch_Some [OF this] obtain pre t where h: "h = pre @ t" and t: "match_here t = Some (e, k)"
    by blast
  from match_here_Some [OF t] obtain post where
    p: "t = ''ApiKey '' @ e @ '':'' @ k @ post" "e \<noteq> []" "k \<noteq> []" "NL \<notin> set e" "NL \<notin> set k"
    by blast
  from p(3) obtain x k' where k: "k = x # k'" by (cases k) auto
  with p(5) have "x \<noteq> NL" by auto
  moreover from h p(1) k have "h = pre @ ''ApiKey '' @ e @ '':'' @ x # (k' @ post)" by simp
  ultimately show "\<exists>pre e x post. h = pre @ ''ApiKey '' @ e @ '':'' @ x # post \<and> e \<noteq> [] \<and> NL \<notin> set e \<and> x \<noteq> NL"
    using p(2,4) by blast
next
  assume "\<exists>pre e x post. h = pre @ ''ApiKey '' @ e @ '':'' @ x # post \<and> e \<noteq> [] \<and> NL \<notin> set e \<and> x \<noteq> NL"
  then obtain pre e x post where h: "h = pre @ (''ApiKey '' @ e @ CHR '':'' # x # post)"
    and e: "e \<noteq> []" "NL \<notin> set e" "x \<noteq> NL" by auto
  show "MatchString h"
  proof (rule ccontr)
    assume "\<not> MatchString h"
    then have "FindStringSubmatch h = None"
      unfolding MatchString_def by blast
    then have "FindStringSubmatch (pre @ (''ApiKey '' @ e @ CHR '':'' # x # post)) = None"
      unfolding h .
    from FindStringSubmatch_None [OF this] match_here_complete [OF e, of post]
    show False by simp
  qed
qed

lemma FindStringSubmatch_shape:
  assumes "FindStringSubmatch h = Some (email, key)"
  shows "\<exists>pre post. h = pre @ ''ApiKey '' @ email @ '':'' @ key @ post
           \<and> email \<noteq> [] \<and> key \<noteq> [] \<and> NL \<notin> set email \<and> NL \<notin> set key"
proof -
  from FindStringSubmatch_Some [OF assms] obtain pre t where h: "h = pre @ t"
    and t: "match_here t = Some (email, key)" by blast
  from match_here_Some [OF t] h show ?thesis by blast
qed

lemma FindStringSubmatch_exact:
  assumes "e \<noteq> []" "NL \<notin> set e" "k \<noteq> []" "NL \<notin> set k" "CHR '':'' \<notin> set (butlast k)"
  shows "FindStringSubmatch (''ApiKey '' @ e @ '':'' @ k) = Some (e, k)"
  by (rule FindStringSubmatch_at_start) (rule match_here_exact [OF assms])



section \<open>Key merge\<close>

lemma set_remove_first_subset:
  "set (remove_first_for_device ks d) \<subseteq> set ks"
  by (induction ks) auto

lemma remove_first_keeps_others:
  "k \<in> set ks \<Longrightarrow> DeviceName k \<noteq> d \<Longrightarrow> k \<in> set (remove_first_for_device ks d)"
  by (induction ks) auto

lemma remove_first_distinct:
  "distinct (map DeviceName ks) \<Longrightarrow> distinct (map DeviceName (remove_first_for_device ks d))"
proof (induction ks)
  case Nil
  then show ?case by simp
next
  case (Cons k ks)
  have "DeviceName k \<notin> DeviceName ` set (remove_first_for_device ks d)"
    using Cons.prems set_remove_first_subset [of ks d] by auto
  with Cons show ?case by simp
qed

lemma remove_first_no_device:
  "distinct (map DeviceName ks) \<Longrightarrow> d \<notin> DeviceName ` set (remove_first_for_device ks d)"
proof (induction ks)
  case Nil
  then show ?case by simp
next
  case (Cons k ks)
  show ?case
  proof (cases "DeviceName k = d")
    case True
    with Cons.prems show ?thesis by auto
  next
    case False
    with Cons show ?thesis by auto
  qed
qed

lemma SetKey_preserves:
  "one_key_per_device a \<Longrightarrow> one_key_per_device (SetKey a k)"
  using remove_first_distinct [of "ApiKeys a" "DeviceName k"]
    remove_first_no_device [of "ApiKeys a" "DeviceName k"]
  by (simp add: one_key_per_device_def SetKey_def RemoveKeyForDevice_def)

lemma foldl_SetKey_preserves:
  "one_key_per_device a \<Longrightarrow> one_key_per_device (foldl SetKey a ks)"
  by (induction ks arbitrary: a) (simp_all add: SetKey_preserves)

text \<open>
  C2. An account that has at most one key per device name still has at most one
  after \<open>SetKey\<close>, for every key merged in, and so after every sequence of merges;
  the account created at a first activation (no keys) has the property, and with it
  every account that merges lead to from there.
\<close>

theorem SetKey_one_key_per_device:
  "(one_key_per_device a \<longrightarrow>
      one_key_per_device (SetKey a apiKey) \<and> one_key_per_device (foldl SetKey a apiKeys))
   \<and> one_key_per_device (foldl SetKey (AuthAccount_zero\<lparr>AccEmail := email\<rparr>) apiKeys)"
proof -
  have "one_key_per_device (AuthAccount_zero\<lparr>AccEmail := email\<rparr>)"
    by (simp add: one_key_per_device_def AuthAccount_zero_def)
  then show ?thesis
    by (simp add: SetKey_preserves foldl_SetKey_preserves)
qed

theorem SetKey_one_key_per_device_witness:
  "one_key_per_device account_two
   \<and> ApiKeys (SetKey account_two pending_key)
     = [\<lparr>Email = ''a'', DeviceName = ''laptop'', Key = ''c''\<rparr>,
        \<lparr>Email = ''a'', DeviceName = ''phone'', Key = ''k2''\<rparr>]
   \<and> one_key_per_device (SetKey account_two pending_key)
   \<and> one_key_per_device (foldl SetKey account_two [pending_key, pending_key])"
proof -
  have h: "one_key_per_device account_two"
    by (simp add: one_key_per_device_def account_two_def)
  have k: "ApiKeys (SetKey account_two pending_key)
     = [\<lparr>Email = ''a'', DeviceName = ''laptop'', Key = ''c''\<rparr>,
        \<lparr>Email = ''a'', DeviceName = ''phone'', Key = ''k2''\<rparr>]"
    by (simp add: SetKey_def RemoveKeyForDevice_def account_two_def pending_key_def)
  from SetKey_one_key_per_device [of account_two pending_key "[pending_key, pending_key]" "''a''",
      THEN conjunct1, rule_format, OF h] h k
  show ?thesis by (intro conjI) simp_all
qed

section \<open>Authentication\<close>

lemma validate_keys_iff: "validate_keys ks key \<longleftrightarrow> (\<exists>k \<in> set ks. Key k = key)"
  by (induction ks) auto

lemma Validate_iff: "Validate a key \<longleftrightarrow> (\<exists>k \<in> set (ApiKeys a). Key k = key)"
  by (simp add: Validate_def validate_keys_iff)

lemma FetchAuthAccount_ok_iff:
  "fst (FetchAuthAccount J email db) = (acc, None) \<longleftrightarrow>
     fault db OpGet = None \<and>
     (\<exists>data. store db email = Some data \<and> Unmarshal_AuthAccount J data = (acc, None))"
  by (auto simp: FetchAuthAccount_def db_Get_def Let_def split: option.splits prod.splits)

lemma FetchAuthAccount_not_found_iff:
  "snd (fst (FetchAuthAccount J email db)) = Some ErrNotFound \<longleftrightarrow>
     fault db OpGet = None \<and> store db email = None"
  by (auto simp: FetchAuthAccount_def db_Get_def Let_def split: option.splits prod.splits)

lemma FetchAuthAccount_store:
  "snd (FetchAuthAccount J email db) = db\<lparr>accesses := accesses db @ [(OpGet, email)]\<rparr>"
  by (auto simp: FetchAuthAccount_def db_Get_def Let_def split: option.splits prod.splits)

lemma Auth_Mapped_iff:
  "fst (Auth J h db) = Mapped acc \<longleftrightarrow>
     (\<exists>email key. FindStringSubmatch h = Some (email, key) \<and>
        fst (FetchAuthAccount J email db) = (acc, None) \<and> Validate acc key)"
  by (auto simp: Auth_def MatchString_def http_Error_def Let_def
      split: option.splits prod.splits if_splits)

lemma Auth_no_match:
  "\<not> MatchString h \<Longrightarrow>
     Auth J h db = (Rejected StatusUnauthorized (''No valid authorization header provided'' @ [NL]), db)"
  by (simp add: Auth_def http_Error_def)



lemmas json_eval = json_plain_def parse_AuthAccount_def parse_ApiKey_def member_string_def
  quote_def dquote_def backslash_def encode_ApiKey_def encode_AuthAccount_def
  ApiKey_zero_def AuthAccount_zero_def

lemmas handler_eval = Auth_def MatchString_def match_here_def email_colon_key_def colon_key_def
  NL_def http_Error_def FetchAuthAccount_def SaveAuthAccount_def db_Get_def db_Put_def
  db_Delete_def db_of_def ActivateApiKey_def SetKey_def RemoveKeyForDevice_def Validate_def
  StatusOK_def StatusUnauthorized_def StatusNotFound_def StatusInternalServerError_def

lemma unmarshal_account_a: "Unmarshal_AuthAccount json_plain account_a_json = (account_a, None)"
  by (simp add: json_eval account_a_json_def account_a_def)

lemma unmarshal_pending_key: "Unmarshal_ApiKey json_plain pending_key_json = (pending_key, None)"
  by (simp add: json_eval pending_key_json_def pending_key_def)

lemma unmarshal_not_json: "Unmarshal_ApiKey json_plain not_json = (ApiKey_zero, Some ''json: invalid text'')"
  by (simp add: json_eval not_json_def)

text \<open>
  C1, as the code has it. \<open>Auth\<close> maps the account exactly when the pattern is found
  in the header, the store of the accounts answers the read of the captured email
  with a document that deserialises to the account, and the captured key is the key
  of one of its \<open>ApiKeys\<close>. The pattern is searched for, not anchored: the header
  matches when \<^verbatim>\<open>ApiKey \<close>, a non-empty email, a colon and at least one more character
  occur somewhere in it, and the captures are such an occurrence. A header of the
  exact shape \<^verbatim>\<open>ApiKey <email>:<key>\<close>, without newline and without colon in the key,
  is captured as that email and that key. A header without a match is answered
  with 401, and the store is returned as it was, with no access recorded.
\<close>

theorem Auth_succeeds_iff:
  "(fst (Auth J header db) = Mapped acc \<longleftrightarrow>
      (\<exists>email key. FindStringSubmatch header = Some (email, key) \<and>
         fault db OpGet = None \<and>
         (\<exists>data. store db email = Some data \<and> Unmarshal_AuthAccount J data = (acc, None)) \<and>
         (\<exists>k \<in> set (ApiKeys acc). Key k = key)))
   \<and> (MatchString header \<longleftrightarrow>
        (\<exists>pre e x post. header = pre @ ''ApiKey '' @ e @ '':'' @ x # post
           \<and> e \<noteq> [] \<and> NL \<notin> set e \<and> x \<noteq> NL))
   \<and> (FindStringSubmatch header = Some (email, key) \<longrightarrow>
        (\<exists>pre post. header = pre @ ''ApiKey '' @ email @ '':'' @ key @ post)
        \<and> email \<noteq> [] \<and> key \<noteq> [])
   \<and> (exact_grammar header email key \<and> NL \<notin> set header \<and> CHR '':'' \<notin> set key \<longrightarrow>
        FindStringSubmatch header = Some (email, key))
   \<and> (\<not> MatchString header \<longrightarrow>
        Auth J header db =
          (Rejected StatusUnauthorized (''No valid authorization header provided'' @ [NL]), db))"
proof -
  have a: "fst (Auth J header db) = Mapped acc \<longleftrightarrow>
      (\<exists>email key. FindStringSubmatch header = Some (email, key) \<and>
         fault db OpGet = None \<and>
         (\<exists>data. store db email = Some data \<and> Unmarshal_AuthAccount J data = (acc, None)) \<and>
         (\<exists>k \<in> set (ApiKeys acc). Key k = key))"
    by (simp only: Auth_Mapped_iff FetchAuthAccount_ok_iff Validate_iff conj_assoc)
  have c: "FindStringSubmatch header = Some (email, key) \<longrightarrow>
        (\<exists>pre post. header = pre @ ''ApiKey '' @ email @ '':'' @ key @ post)
        \<and> email \<noteq> [] \<and> key \<noteq> []"
    using FindStringSubmatch_shape [of header email key] by blast
  have d: "exact_grammar header email key \<and> NL \<notin> set header \<and> CHR '':'' \<notin> set key \<longrightarrow>
        FindStringSubmatch header = Some (email, key)"
  proof
    assume h: "exact_grammar header email key \<and> NL \<notin> set header \<and> CHR '':'' \<notin> set key"
    then have hd: "header = ''ApiKey '' @ email @ '':'' @ key" and ne: "email \<noteq> []" "key \<noteq> []"
      by (simp_all add: exact_grammar_def)
    from h hd have nl: "NL \<notin> set email" "NL \<notin> set key" by auto
    from h have "CHR '':'' \<notin> set (butlast key)" by (auto dest: in_set_butlastD)
    from FindStringSubmatch_exact [OF ne(1) nl(1) ne(2) nl(2) this] hd show
      "FindStringSubmatch header = Some (email, key)" by simp
  qed
  from a MatchString_iff [of header] c d Auth_no_match [of header J db] show ?thesis
    by blast
qed

theorem Auth_succeeds_iff_witness:
  "fst (Auth json_plain ''ApiKey a:b'' (db_of [(''a'', account_a_json)])) = Mapped account_a
   \<and> FindStringSubmatch ''ApiKey a:b'' = Some (''a'', ''b'')
   \<and> exact_grammar ''ApiKey a:b'' ''a'' ''b''
   \<and> \<not> MatchString ''Basic YTpi''
   \<and> Auth json_plain ''Basic YTpi'' (db_of [(''a'', account_a_json)]) =
       (Rejected 401 (''No valid authorization header provided'' @ [NL]), db_of [(''a'', account_a_json)])"
proof -
  have m: "\<not> MatchString ''Basic YTpi''"
    by (simp add: MatchString_def match_here_def)
  have g: "exact_grammar ''ApiKey a:b'' ''a'' ''b'' \<and> NL \<notin> set ''ApiKey a:b'' \<and> CHR '':'' \<notin> set ''b''"
    by (simp add: exact_grammar_def NL_def)
  have s: "FindStringSubmatch ''ApiKey a:b'' = Some (''a'', ''b'')"
    using Auth_succeeds_iff [of json_plain "''ApiKey a:b''" "db_of []" account_a "''a''" "''b''"] g
    by blast
  have u: "Unmarshal_AuthAccount json_plain account_a_json = (account_a, None)"
    by (rule unmarshal_account_a)
  have "fst (Auth json_plain ''ApiKey a:b'' (db_of [(''a'', account_a_json)])) = Mapped account_a"
    using Auth_succeeds_iff [of json_plain "''ApiKey a:b''" "db_of [(''a'', account_a_json)]"
        account_a "''a''" "''b''"] s u
    by (simp add: db_of_def account_a_def)
  moreover have "Auth json_plain ''Basic YTpi'' (db_of [(''a'', account_a_json)]) =
       (Rejected 401 (''No valid authorization header provided'' @ [NL]), db_of [(''a'', account_a_json)])"
    using Auth_succeeds_iff [of json_plain "''Basic YTpi''" "db_of [(''a'', account_a_json)]"
        account_a "''a''" "''b''"] m
    by (simp add: StatusUnauthorized_def)
  ultimately show ?thesis using m g s by simp
qed

theorem Auth_prefix_counterexample:
  "fst (Auth json_plain ''xApiKey a:b'' (db_of [(''a'', account_a_json)])) = Mapped account_a
   \<and> \<not> matches_exact_grammar ''xApiKey a:b''"
  by (simp add: handler_eval unmarshal_account_a matches_exact_grammar_def account_a_def)

section \<open>Activation of an unknown token\<close>

text \<open>
  C3. For a token that has no entry in the store of the pending keys,
  \<open>ActivateApiKey\<close> answers 404 with the text \<^verbatim>\<open>Token not valid\<close>; the entries of the
  pending store are the same after the call, and the store of the accounts is
  returned as it was (it is not even read).
\<close>

theorem Activate_unknown_token:
  "store actDB token = None \<Longrightarrow>
     fst (ActivateApiKey J token actDB authDB) = (StatusNotFound, ''Token not valid'')
     \<and> store (fst (snd (ActivateApiKey J token actDB authDB))) = store actDB
     \<and> snd (snd (ActivateApiKey J token actDB authDB)) = authDB"
  by (simp add: ActivateApiKey_def db_Get_def Let_def split: option.splits)

theorem Activate_unknown_token_witness:
  "store (db_of [(''t1'', pending_key_json)]) ''t2'' = None
   \<and> fst (ActivateApiKey json_plain ''t2'' (db_of [(''t1'', pending_key_json)])
            (db_of [(''a'', account_a_json)])) = (404, ''Token not valid'')
   \<and> store (fst (snd (ActivateApiKey json_plain ''t2'' (db_of [(''t1'', pending_key_json)])
            (db_of [(''a'', account_a_json)])))) = store (db_of [(''t1'', pending_key_json)])
   \<and> snd (snd (ActivateApiKey json_plain ''t2'' (db_of [(''t1'', pending_key_json)])
            (db_of [(''a'', account_a_json)]))) = db_of [(''a'', account_a_json)]"
proof -
  have h: "store (db_of [(''t1'', pending_key_json)]) ''t2'' = None"
    by (simp add: db_of_def)
  show ?thesis
    using h Activate_unknown_token [OF h, of json_plain "db_of [(''a'', account_a_json)]"]
    by (simp add: StatusNotFound_def)
qed

section \<open>The blob of an account\<close>

text \<open>
  C7. When the store of the blobs accepts the write and answers the read, \<open>PutData\<close>
  returns 200 with the bytes it was given, and \<open>GetData\<close> on the store it leaves
  returns 200 with exactly these bytes, for every account and every byte string.
\<close>

theorem Put_then_Get:
  "fault db OpPut = None \<Longrightarrow> fault db OpGet = None \<Longrightarrow>
     fst (PutData acc b db) = (StatusOK, b)
     \<and> fst (GetData acc (snd (PutData acc b db))) = (StatusOK, b)"
  by (simp add: PutData_def GetData_def db_Put_def db_Get_def Let_def)

theorem Put_then_Get_witness:
  "fault (db_of [(''a'', ''old'')]) OpPut = None \<and> fault (db_of [(''a'', ''old'')]) OpGet = None
   \<and> fst (PutData account_a ''new'' (db_of [(''a'', ''old'')])) = (200, ''new'')
   \<and> fst (GetData account_a (snd (PutData account_a ''new'' (db_of [(''a'', ''old'')])))) = (200, ''new'')"
proof -
  have h1: "fault (db_of [(''a'', ''old'')]) OpPut = None"
    and h2: "fault (db_of [(''a'', ''old'')]) OpGet = None"
    by (simp_all add: db_of_def)
  show ?thesis
    using h1 h2 Put_then_Get [OF h1 h2, of account_a "''new''"]
    by (simp add: StatusOK_def)
qed

section \<open>Requesting a key\<close>

lemma uuid_a: "uuid random_a = ''00010203-0405-4607-8809-0a0b0c0d0e0f''"
  by (simp add: uuid_def random_a_def hex_bytes_def hex_digit_def)

lemma uuid_b: "uuid random_b = ''fffefdfc-fbfa-49f8-b7f6-f5f4f3f2f1f0''"
  by (simp add: uuid_def random_b_def hex_bytes_def hex_digit_def)

text \<open>
  C9. For every email and device name, \<open>RequestApiKey\<close> answers 200 with the
  serialised key \<open>{email, deviceName, key}\<close>, the key being the first identifier
  generated; when the pending store accepts the write, that same text is stored
  under the second identifier, the token; and the result is the same whatever the
  mail transport does.
\<close>

theorem RequestApiKey_persists_and_returns:
  "fst (RequestApiKey J actEmailTemp sendMail email deviceName host random1 random2 actDb)
     = (StatusOK, fst (Marshal_ApiKey J \<lparr>Email = email, DeviceName = deviceName, Key = uuid random1\<rparr>))
   \<and> (fault actDb OpPut = None \<longrightarrow>
        store (snd (RequestApiKey J actEmailTemp sendMail email deviceName host random1 random2 actDb))
          = (store actDb)(uuid random2 \<mapsto>
               fst (Marshal_ApiKey J \<lparr>Email = email, DeviceName = deviceName, Key = uuid random1\<rparr>)))
   \<and> RequestApiKey J actEmailTemp sendMail email deviceName host random1 random2 actDb
     = RequestApiKey J actEmailTemp sendMail' email deviceName host random1 random2 actDb"
  by (simp add: RequestApiKey_def db_Put_def Let_def split: prod.splits option.splits)

theorem RequestApiKey_persists_and_returns_witness:
  "fault (db_of []) OpPut = None
   \<and> fst (RequestApiKey json_plain (\<lambda>e d l. l) (\<lambda>r s b. Some (Err ''connection refused''))
           ''a'' ''phone'' ''localhost'' random_a random_b (db_of []))
       = (200, ''{\"email\":\"a\",\"device_name\":\"phone\",\"key\":\"00010203-0405-4607-8809-0a0b0c0d0e0f\"}'')
   \<and> store (snd (RequestApiKey json_plain (\<lambda>e d l. l) (\<lambda>r s b. Some (Err ''connection refused''))
           ''a'' ''phone'' ''localhost'' random_a random_b (db_of [])))
         ''fffefdfc-fbfa-49f8-b7f6-f5f4f3f2f1f0''
       = Some ''{\"email\":\"a\",\"device_name\":\"phone\",\"key\":\"00010203-0405-4607-8809-0a0b0c0d0e0f\"}''"
proof -
  have h: "fault (db_of []) OpPut = None" by (simp add: db_of_def)
  have m: "fst (Marshal_ApiKey json_plain
        \<lparr>Email = ''a'', DeviceName = ''phone'', Key = ''00010203-0405-4607-8809-0a0b0c0d0e0f''\<rparr>)
      = ''{\"email\":\"a\",\"device_name\":\"phone\",\"key\":\"00010203-0405-4607-8809-0a0b0c0d0e0f\"}''"
    by (simp add: json_eval)
  note t = RequestApiKey_persists_and_returns [of json_plain "\<lambda>e d l. l"
        "\<lambda>r s b. Some (Err ''connection refused'')" "''a''" "''phone''" "''localhost''"
        random_a random_b "db_of []" "\<lambda>r s b. None"]
  from t [THEN conjunct1] have r: "fst (RequestApiKey json_plain (\<lambda>e d l. l) (\<lambda>r s b. Some (Err ''connection refused''))
           ''a'' ''phone'' ''localhost'' random_a random_b (db_of []))
       = (200, ''{\"email\":\"a\",\"device_name\":\"phone\",\"key\":\"00010203-0405-4607-8809-0a0b0c0d0e0f\"}'')"
    using m by (simp add: uuid_a StatusOK_def)
  from t [THEN conjunct2, THEN conjunct1, rule_format, OF h] have "store (snd (RequestApiKey json_plain (\<lambda>e d l. l) (\<lambda>r s b. Some (Err ''connection refused''))
           ''a'' ''phone'' ''localhost'' random_a random_b (db_of [])))
       = (store (db_of []))(''fffefdfc-fbfa-49f8-b7f6-f5f4f3f2f1f0'' \<mapsto>
           ''{\"email\":\"a\",\"device_name\":\"phone\",\"key\":\"00010203-0405-4607-8809-0a0b0c0d0e0f\"}'')"
    using m by (simp add: uuid_a uuid_b)
  then have "store (snd (RequestApiKey json_plain (\<lambda>e d l. l) (\<lambda>r s b. Some (Err ''connection refused''))
           ''a'' ''phone'' ''localhost'' random_a random_b (db_of [])))
         ''fffefdfc-fbfa-49f8-b7f6-f5f4f3f2f1f0''
       = Some ''{\"email\":\"a\",\"device_name\":\"phone\",\"key\":\"00010203-0405-4607-8809-0a0b0c0d0e0f\"}''"
    by simp
  with h r show ?thesis by (intro conjI)
qed

section \<open>Activation on an existing account\<close>

lemma unmarshal_account_two: "Unmarshal_AuthAccount json_plain account_two_json = (account_two, None)"
  by (simp add: json_eval account_two_json_def account_two_def)

lemma filter_remove_first_others:
  "filter (\<lambda>k. DeviceName k \<noteq> d) (remove_first_for_device ks d) = filter (\<lambda>k. DeviceName k \<noteq> d) ks"
  by (induction ks) auto

lemma filter_remove_first_same:
  "distinct (map DeviceName ks) \<Longrightarrow> filter (\<lambda>k. DeviceName k = d) (remove_first_for_device ks d) = []"
  using remove_first_no_device [of ks d] by (auto simp: filter_empty_conv)

lemma length_remove_first:
  "d \<in> DeviceName ` set ks \<Longrightarrow> Suc (length (remove_first_for_device ks d)) = length ks"
  by (induction ks) auto

lemma SetKey_frame:
  "AccEmail (SetKey acc apiKey) = AccEmail acc"
  "filter (\<lambda>k. DeviceName k \<noteq> DeviceName apiKey) (ApiKeys (SetKey acc apiKey))
     = filter (\<lambda>k. DeviceName k \<noteq> DeviceName apiKey) (ApiKeys acc)"
  "one_key_per_device acc \<Longrightarrow>
     filter (\<lambda>k. DeviceName k = DeviceName apiKey) (ApiKeys (SetKey acc apiKey)) = [apiKey]"
  "DeviceName apiKey \<in> DeviceName ` set (ApiKeys acc) \<Longrightarrow>
     length (ApiKeys (SetKey acc apiKey)) = length (ApiKeys acc)"
  using length_remove_first [of "DeviceName apiKey" "ApiKeys acc"]
  by (simp_all add: SetKey_def RemoveKeyForDevice_def filter_remove_first_others
      filter_remove_first_same one_key_per_device_def)

lemma Activate_saves:
  assumes "fault actDB OpGet = None" "store actDB token = Some data"
    and "Unmarshal_ApiKey J data = (apiKey, e)"
    and "fault authDB OpGet = None" "store authDB (Email apiKey) = Some accData"
    and "Unmarshal_AuthAccount J accData = (acc, None)"
    and "Marshal_AuthAccount J (SetKey acc apiKey) = (saved, None)"
    and "fault authDB OpPut = None"
  shows "store (snd (snd (ActivateApiKey J token actDB authDB)))
           = (store authDB)(AccEmail acc \<mapsto> saved)"
  using assms
  by (simp add: ActivateApiKey_def FetchAuthAccount_def SaveAuthAccount_def db_Get_def db_Put_def
      db_Delete_def Let_def SetKey_frame(1) split: option.splits prod.splits)

text \<open>
  C8. Take a token whose pending entry is read and unmarshalled to \<open>apiKey\<close>, an
  account that is stored for the email of the key and unmarshals to \<open>acc\<close>, and an
  account store that accepts the write. Then the account saved by \<open>ActivateApiKey\<close>
  (under the email of \<open>acc\<close>) is the serialisation of \<open>SetKey acc apiKey\<close>: it has the
  email of \<open>acc\<close>; its keys for other device names are those of \<open>acc\<close>, the same keys
  in the same order; when \<open>acc\<close> has one key per device, its only key for the device
  of \<open>apiKey\<close> is \<open>apiKey\<close>; and when \<open>acc\<close> had a key for that device, the number of
  keys is the same as before.
\<close>

theorem Activate_replaces_only_device_key:
  assumes "fault actDB OpGet = None" "store actDB token = Some data"
    and "Unmarshal_ApiKey J data = (apiKey, e)"
    and "fault authDB OpGet = None" "store authDB (Email apiKey) = Some accData"
    and "Unmarshal_AuthAccount J accData = (acc, None)"
    and "Marshal_AuthAccount J (SetKey acc apiKey) = (saved, None)"
    and "fault authDB OpPut = None"
  shows "store (snd (snd (ActivateApiKey J token actDB authDB)))
           = (store authDB)(AccEmail acc \<mapsto> saved)
    \<and> AccEmail (SetKey acc apiKey) = AccEmail acc
    \<and> filter (\<lambda>k. DeviceName k \<noteq> DeviceName apiKey) (ApiKeys (SetKey acc apiKey))
        = filter (\<lambda>k. DeviceName k \<noteq> DeviceName apiKey) (ApiKeys acc)
    \<and> (one_key_per_device acc \<longrightarrow>
        filter (\<lambda>k. DeviceName k = DeviceName apiKey) (ApiKeys (SetKey acc apiKey)) = [apiKey])
    \<and> (DeviceName apiKey \<in> DeviceName ` set (ApiKeys acc) \<longrightarrow>
        length (ApiKeys (SetKey acc apiKey)) = length (ApiKeys acc))"
  using Activate_saves [OF assms] SetKey_frame [where acc=acc and apiKey=apiKey] by blast

theorem Activate_replaces_only_device_key_witness:
  "store (snd (snd (ActivateApiKey json_plain ''t1'' (db_of [(''t1'', pending_key_json)])
       (db_of [(''a'', account_two_json)])))) = (store (db_of [(''a'', account_two_json)]))(''a'' \<mapsto> account_two_merged_json)
   \<and> ApiKeys (SetKey account_two pending_key) =
       [\<lparr>Email = ''a'', DeviceName = ''laptop'', Key = ''c''\<rparr>,
        \<lparr>Email = ''a'', DeviceName = ''phone'', Key = ''k2''\<rparr>]
   \<and> filter (\<lambda>k. DeviceName k \<noteq> ''phone'') (ApiKeys (SetKey account_two pending_key))
       = [\<lparr>Email = ''a'', DeviceName = ''laptop'', Key = ''c''\<rparr>]
   \<and> filter (\<lambda>k. DeviceName k = ''phone'') (ApiKeys (SetKey account_two pending_key))
       = [pending_key]
   \<and> length (ApiKeys (SetKey account_two pending_key)) = 2
   \<and> one_key_per_device account_two
   \<and> DeviceName pending_key \<in> DeviceName ` set (ApiKeys account_two)"
proof -
  have a: "fault (db_of [(''t1'', pending_key_json)]) OpGet = None"
    "store (db_of [(''t1'', pending_key_json)]) ''t1'' = Some pending_key_json"
    by (simp_all add: db_of_def)
  have b: "Unmarshal_ApiKey json_plain pending_key_json = (pending_key, None)"
    by (rule unmarshal_pending_key)
  have c: "fault (db_of [(''a'', account_two_json)]) OpGet = None"
    "store (db_of [(''a'', account_two_json)]) (Email pending_key) = Some account_two_json"
    "fault (db_of [(''a'', account_two_json)]) OpPut = None"
    by (simp_all add: db_of_def pending_key_def)
  have d: "Unmarshal_AuthAccount json_plain account_two_json = (account_two, None)"
    by (rule unmarshal_account_two)
  have k: "ApiKeys (SetKey account_two pending_key) =
       [\<lparr>Email = ''a'', DeviceName = ''laptop'', Key = ''c''\<rparr>,
        \<lparr>Email = ''a'', DeviceName = ''phone'', Key = ''k2''\<rparr>]"
    by (simp add: SetKey_def RemoveKeyForDevice_def account_two_def pending_key_def)
  have m: "Marshal_AuthAccount json_plain (SetKey account_two pending_key) = (account_two_merged_json, None)"
    by (simp add: json_eval SetKey_def RemoveKeyForDevice_def account_two_def pending_key_def
        account_two_merged_json_def)
  have i: "one_key_per_device account_two"
    "DeviceName pending_key \<in> DeviceName ` set (ApiKeys account_two)"
    by (simp_all add: one_key_per_device_def account_two_def pending_key_def)
  have e: "AccEmail account_two = ''a''" "DeviceName pending_key = ''phone''"
    by (simp_all add: account_two_def pending_key_def)
  note t = Activate_replaces_only_device_key [OF a b c(1,2) d m c(3), unfolded e]
  note t1 = t [THEN conjunct1]
  note t3 = t [THEN conjunct2, THEN conjunct2, THEN conjunct1]
  note t4 = t [THEN conjunct2, THEN conjunct2, THEN conjunct2, THEN conjunct1, rule_format, OF i(1)]
  note t5 = t [THEN conjunct2, THEN conjunct2, THEN conjunct2, THEN conjunct2, rule_format,
      OF i(2) [unfolded e]]
  have "filter (\<lambda>k. DeviceName k \<noteq> ''phone'') (ApiKeys (SetKey account_two pending_key))
       = [\<lparr>Email = ''a'', DeviceName = ''laptop'', Key = ''c''\<rparr>]"
    unfolding t3 by (simp add: account_two_def)
  moreover have "length (ApiKeys (SetKey account_two pending_key)) = 2"
    unfolding t5 by (simp add: account_two_def)
  ultimately show ?thesis using t1 t4 k i e by simp
qed

lemma unmarshal_account_other:
  "Unmarshal_AuthAccount json_plain account_other_json = (account_other, None)"
  by (simp add: json_eval account_other_json_def account_other_def)

lemma find_a_b: "FindStringSubmatch ''ApiKey a:b'' = Some (''a'', ''b'')"
  by (simp add: match_here_def email_colon_key_def colon_key_def NL_def)

lemma marshal_plain:
  "Marshal_AuthAccount json_plain a = (encode_AuthAccount a, None)"
  "Marshal_ApiKey json_plain k = (encode_ApiKey k, None)"
  by (simp_all add: json_plain_def)

lemmas encode_eval = encode_ApiKey_def encode_AuthAccount_def quote_def dquote_def backslash_def

section \<open>The two refusals of a well-formed header\<close>

text \<open>
  C5, as the code has it. For a header in which the pattern is found, and a store
  that answers the read: when no account is stored for the captured email the
  answer is 401 with the text \<^verbatim>\<open>User <email> does not exists\<close>; when an account is
  stored and none of its keys is the captured key the answer is 401 with the text
  \<^verbatim>\<open>The provided key was not valid\<close>. The status is the same, the message is not.
\<close>

theorem Auth_failures_same_status_other_text:
  assumes "FindStringSubmatch header = Some (email, key)" and "fault db OpGet = None"
  shows "(store db email = None \<longrightarrow>
            fst (Auth J header db) =
              Rejected StatusUnauthorized (''User '' @ email @ '' does not exists'' @ [NL]))
       \<and> (store db email = Some data \<and> Unmarshal_AuthAccount J data = (acc, None)
            \<and> \<not> (\<exists>k \<in> set (ApiKeys acc). Key k = key) \<longrightarrow>
            fst (Auth J header db) =
              Rejected StatusUnauthorized (''The provided key was not valid'' @ [NL]))"
  using assms
  by (auto simp: Auth_def MatchString_def FetchAuthAccount_def db_Get_def http_Error_def
      Validate_iff Let_def)

theorem Auth_failures_same_status_other_text_witness:
  "FindStringSubmatch ''ApiKey a:b'' = Some (''a'', ''b'')
   \<and> fst (Auth json_plain ''ApiKey a:b'' (db_of [])) =
        Rejected 401 (''User a does not exists'' @ [NL])
   \<and> fst (Auth json_plain ''ApiKey a:b'' (db_of [(''a'', account_other_json)])) =
        Rejected 401 (''The provided key was not valid'' @ [NL])"
proof -
  have f: "fault (db_of []) OpGet = None" "fault (db_of [(''a'', account_other_json)]) OpGet = None"
    by (simp_all add: db_of_def)
  have s: "store (db_of []) ''a'' = None"
    "store (db_of [(''a'', account_other_json)]) ''a'' = Some account_other_json
     \<and> Unmarshal_AuthAccount json_plain account_other_json = (account_other, None)
     \<and> \<not> (\<exists>k \<in> set (ApiKeys account_other). Key k = ''b'')"
    by (simp_all add: db_of_def unmarshal_account_other account_other_def)
  from Auth_failures_same_status_other_text [OF find_a_b f(1), where data=account_other_json and J=json_plain and acc=account_other] s(1)
  have "fst (Auth json_plain ''ApiKey a:b'' (db_of [])) =
        Rejected 401 (''User a does not exists'' @ [NL])"
    by (simp add: StatusUnauthorized_def)
  moreover from Auth_failures_same_status_other_text [OF find_a_b f(2), where data=account_other_json and J=json_plain and acc=account_other] s(2)
  have "fst (Auth json_plain ''ApiKey a:b'' (db_of [(''a'', account_other_json)])) =
        Rejected 401 (''The provided key was not valid'' @ [NL])"
    by (simp add: StatusUnauthorized_def)
  ultimately show ?thesis using find_a_b by simp
qed

text \<open>
  The header \<^verbatim>\<open>ApiKey a:b\<close> on the empty store and on a store where \<^verbatim>\<open>a\<close> has the key
  \<^verbatim>\<open>other\<close>: the two answers differ.
\<close>

theorem Auth_failures_distinguishable:
  "fst (Auth json_plain ''ApiKey a:b'' (db_of [])) =
     Rejected 401 (''User a does not exists'' @ [NL])
   \<and> fst (Auth json_plain ''ApiKey a:b'' (db_of [(''a'', account_other_json)])) =
     Rejected 401 (''The provided key was not valid'' @ [NL])
   \<and> fst (Auth json_plain ''ApiKey a:b'' (db_of [])) \<noteq>
     fst (Auth json_plain ''ApiKey a:b'' (db_of [(''a'', account_other_json)]))"
  by (simp add: handler_eval unmarshal_account_other account_other_def)

section \<open>Failures during activation\<close>

text \<open>
  C4, on the code: the token \<^verbatim>\<open>t1\<close> is pending for the key \<^verbatim>\<open>k2\<close> of the device
  \<^verbatim>\<open>phone\<close> of \<^verbatim>\<open>a\<close>, and every write to the store of the accounts fails. The error
  of \<open>SaveAuthAccount\<close> is overwritten by the result of the delete: the answer is 200,
  no account is stored, and the pending entry is gone.
\<close>

theorem Activate_save_failure_answers_200:
  "fst (ActivateApiKey json_plain ''t1'' (db_of [(''t1'', pending_key_json)]) (put_fails (db_of [])))
     = (200, ''The api key for the device phone has been activated!'')
   \<and> store (snd (snd (ActivateApiKey json_plain ''t1'' (db_of [(''t1'', pending_key_json)])
        (put_fails (db_of []))))) ''a'' = None
   \<and> store (fst (snd (ActivateApiKey json_plain ''t1'' (db_of [(''t1'', pending_key_json)])
        (put_fails (db_of []))))) ''t1'' = None"
  by (simp add: handler_eval unmarshal_pending_key pending_key_def put_fails_def marshal_plain
      AuthAccount_zero_def)

text \<open>
  C6, on the code: the pending entry of the token \<^verbatim>\<open>t1\<close> is the text \<^verbatim>\<open>not json\<close>.
  The error of \<^verbatim>\<open>json.Unmarshal\<close> is dropped and the zero key is merged: the answer is
  200, an account is stored under the empty email, and the pending entry is gone. A
  token without entry is answered with 404.
\<close>

theorem Activate_undecodable_entry_answers_200:
  "fst (ActivateApiKey json_plain ''t1'' (db_of [(''t1'', not_json)]) (db_of []))
     = (200, ''The api key for the device  has been activated!'')
   \<and> store (snd (snd (ActivateApiKey json_plain ''t1'' (db_of [(''t1'', not_json)]) (db_of [])))) []
     = Some ''{\"Email\":\"\",\"ApiKeys\":[{\"email\":\"\",\"device_name\":\"\",\"key\":\"\"}]}''
   \<and> store (fst (snd (ActivateApiKey json_plain ''t1'' (db_of [(''t1'', not_json)]) (db_of [])))) ''t1''
     = None
   \<and> fst (ActivateApiKey json_plain ''t2'' (db_of [(''t1'', not_json)]) (db_of []))
     = (404, ''Token not valid'')"
  by (simp add: handler_eval unmarshal_not_json marshal_plain encode_eval ApiKey_zero_def
      AuthAccount_zero_def)


section \<open>Headers with several colons\<close>




end
